theory Spec2Isabelle
  imports Main
begin

section \<open>Content negotiation of the account example (transport/encoding\_http.go)\<close>

text \<open>
  The file selects a request-body decoder, a response encoder and a response content type
  from the \<open>Content-Type\<close> and \<open>Accept\<close> headers, and encodes errors into the response.
  Go strings are byte strings: a \<^typ>\<open>string\<close> here is the list of the bytes of the Go string.
\<close>

subsection \<open>Bytes and the string functions of the Go library that the parser uses\<close>

definition byte :: "char \<Rightarrow> nat" where
  "byte c = of_char c"

definition has_prefix :: "string \<Rightarrow> string \<Rightarrow> bool" where
  "has_prefix s p = (take (length p) s = p)"

text \<open>
  \<open>unicode.IsSpace\<close>: the runes TAB, LF, VT, FF, CR, SPACE, U+0085, U+00A0, U+1680,
  U+2000 to U+200A, U+2028, U+2029, U+202F, U+205F and U+3000, each given by its UTF-8
  encoding. A leading byte of an encoding is never a continuation byte, so an encoding found
  at the front (or at the end) of a byte string is the first (or last) rune that Go decodes.
\<close>

definition space_runes :: "string list" where
  "space_runes =
     [[CHR 0x09], [CHR 0x0A], [CHR 0x0B],
      [CHR 0x0C], [CHR 0x0D], [CHR 0x20],
      [CHR 0xC2, CHR 0x85], [CHR 0xC2, CHR 0xA0],
      [CHR 0xE1, CHR 0x9A, CHR 0x80],
      [CHR 0xE2, CHR 0x80, CHR 0x80], [CHR 0xE2, CHR 0x80, CHR 0x81],
      [CHR 0xE2, CHR 0x80, CHR 0x82], [CHR 0xE2, CHR 0x80, CHR 0x83],
      [CHR 0xE2, CHR 0x80, CHR 0x84], [CHR 0xE2, CHR 0x80, CHR 0x85],
      [CHR 0xE2, CHR 0x80, CHR 0x86], [CHR 0xE2, CHR 0x80, CHR 0x87],
      [CHR 0xE2, CHR 0x80, CHR 0x88], [CHR 0xE2, CHR 0x80, CHR 0x89],
      [CHR 0xE2, CHR 0x80, CHR 0x8A],
      [CHR 0xE2, CHR 0x80, CHR 0xA8], [CHR 0xE2, CHR 0x80, CHR 0xA9],
      [CHR 0xE2, CHR 0x80, CHR 0xAF], [CHR 0xE2, CHR 0x81, CHR 0x9F],
      [CHR 0xE3, CHR 0x80, CHR 0x80]]"

text \<open>The number of bytes of the space rune that \<open>s\<close> starts with, 0 when it starts with none.\<close>

definition space_width :: "string list \<Rightarrow> string \<Rightarrow> nat" where
  "space_width encs s = (case filter (has_prefix s) encs of [] \<Rightarrow> 0 | e # _ \<Rightarrow> length e)"

text \<open>\<open>strings.TrimLeftFunc(s, unicode.IsSpace)\<close>, over the encodings \<open>encs\<close>.\<close>

function trim_left :: "string list \<Rightarrow> string \<Rightarrow> string" where
  "trim_left encs s =
     (if s \<noteq> [] \<and> 0 < space_width encs s then trim_left encs (drop (space_width encs s) s)
      else s)"
  by pat_completeness auto
termination
  by (relation "measure (\<lambda>(encs, s). length s)") auto

declare trim_left.simps [simp del]

definition TrimLeftSpace :: "string \<Rightarrow> string" where
  "TrimLeftSpace s = trim_left space_runes s"

text \<open>\<open>strings.TrimSpace\<close>: the leading space runes go first, then the trailing ones.\<close>

definition TrimSpace :: "string \<Rightarrow> string" where
  "TrimSpace s = rev (trim_left (map rev space_runes) (rev (trim_left space_runes s)))"

text \<open>
  \<open>strings.ToLower\<close>. It maps every rune by \<open>unicode.ToLower\<close>: \<open>A\<close> to \<open>Z\<close> go to
  \<open>a\<close> to \<open>z\<close>, and exactly two runes beyond ASCII have an ASCII lower case, U+0130 (bytes
  C4 B0, lower case \<open>i\<close>) and U+212A (bytes E2 84 AA, lower case \<open>k\<close>). Every other rune
  beyond ASCII, and every byte that is not valid UTF-8, comes out as a rune beyond ASCII
  again; its bytes are kept here, since the parser below rejects any such rune whatever its
  bytes are and returns the lowered string only when all of it is ASCII.
\<close>

fun ToLower :: "string \<Rightarrow> string" where
  "ToLower [] = []"
| "ToLower (c # cs) =
     (if 0x41 \<le> byte c \<and> byte c \<le> 0x5A then char_of (byte c + 0x20) # ToLower cs
      else if has_prefix (c # cs) [CHR 0xC4, CHR 0xB0]
        then CHR ''i'' # ToLower (drop 1 cs)
      else if has_prefix (c # cs) [CHR 0xE2, CHR 0x84, CHR 0xAA]
        then CHR ''k'' # ToLower (drop 2 cs)
      else c # ToLower cs)"

subsection \<open>\<open>mime.ParseMediaType\<close> (Go standard library, mime/mediatype.go)\<close>

definition isTSpecial :: "char \<Rightarrow> bool" where
  "isTSpecial c = (c \<in> set (''()<>@,;:'' @ [CHR 0x5C, CHR 0x22] @ ''/[]?=''))"

definition isTokenChar :: "char \<Rightarrow> bool" where
  "isTokenChar c = (0x20 < byte c \<and> byte c < 0x7F \<and> \<not> isTSpecial c)"

definition consumeToken :: "string \<Rightarrow> string \<times> string" where
  "consumeToken v = (takeWhile isTokenChar v, dropWhile isTokenChar v)"

datatype mime_error =
    NoMediaType
  | ExpectedSlash
  | ExpectedToken
  | UnexpectedContent
  | ErrInvalidMediaParameter
  | DuplicateParameter

definition checkMediaTypeDisposition :: "string \<Rightarrow> mime_error option" where
  "checkMediaTypeDisposition s =
     (let (typ, rest) = consumeToken s in
      if typ = [] then Some NoMediaType
      else if rest = [] then None
      else if \<not> has_prefix rest ''/'' then Some ExpectedSlash
      else let (subtype, rest') = consumeToken (drop 1 rest) in
        if subtype = [] then Some ExpectedToken
        else if rest' \<noteq> [] then Some UnexpectedContent
        else None)"

text \<open>
  The quoted-string loop of \<open>consumeValue\<close>: \<open>buf\<close> is the buffer, the second argument what
  is left after the opening quote. \<open>None\<close> is the loop's failure (a bare CR or LF, or no
  closing quote).
\<close>

fun quoted :: "string \<Rightarrow> string \<Rightarrow> (string \<times> string) option" where
  "quoted buf [] = None"
| "quoted buf (r # rs) =
     (if r = CHR 0x22 then Some (buf, rs)
      else if r = CHR 0x5C \<and> rs \<noteq> [] \<and> isTSpecial (hd rs)
        then quoted (buf @ [hd rs]) (tl rs)
      else if r = CHR 0x0D \<or> r = CHR 0x0A then None
      else quoted (buf @ [r]) rs)"

definition consumeValue :: "string \<Rightarrow> string \<times> string" where
  "consumeValue v =
     (if v = [] then ([], [])
      else if hd v \<noteq> CHR 0x22 then consumeToken v
      else (case quoted [] (tl v) of Some (b, rest) \<Rightarrow> (b, rest) | None \<Rightarrow> ([], v)))"

definition consumeMediaParam :: "string \<Rightarrow> string \<times> string \<times> string" where
  "consumeMediaParam v =
     (let rest = TrimLeftSpace v in
      if \<not> has_prefix rest '';'' then ([], [], v)
      else let rest1 = TrimLeftSpace (drop 1 rest);
               (param0, rest2) = consumeToken rest1;
               param = ToLower param0 in
        if param = [] then ([], [], v)
        else let rest3 = TrimLeftSpace rest2 in
          if \<not> has_prefix rest3 ''='' then ([], [], v)
          else let rest4 = TrimLeftSpace (drop 1 rest3);
                   (val, rest5) = consumeValue rest4 in
            if val = [] \<and> rest5 = rest4 then ([], [], v)
            else (param, val, rest5))"


text \<open>
  The parameter loop of \<open>ParseMediaType\<close>. \<open>params\<close> holds the parameters whose name has
  no \<open>*\<close>, \<open>continuation\<close> maps the part of a name before its first \<open>*\<close> to the
  parameters with that base name. The result is the loop's error, \<open>None\<close> when it ends
  without one.
\<close>

function param_loop ::
  "(string \<rightharpoonup> string) \<Rightarrow> (string \<rightharpoonup> (string \<rightharpoonup> string)) \<Rightarrow> string \<Rightarrow> mime_error option" where
  "param_loop params continuation v =
     (if v = [] then None
      else if TrimLeftSpace v = [] then None
      else if fst (consumeMediaParam (TrimLeftSpace v)) = [] then
        (if TrimSpace (snd (snd (consumeMediaParam (TrimLeftSpace v)))) = '';'' then None
         else Some ErrInvalidMediaParameter)
      else
        (let key = fst (consumeMediaParam (TrimLeftSpace v));
             val = fst (snd (consumeMediaParam (TrimLeftSpace v)));
             rest = snd (snd (consumeMediaParam (TrimLeftSpace v)))
         in if CHR ''*'' \<in> set key then
              (let baseName = takeWhile (\<lambda>c. c \<noteq> CHR ''*'') key;
                   pmap = (case continuation baseName of Some m \<Rightarrow> m | None \<Rightarrow> Map.empty)
               in if (case pmap key of Some old \<Rightarrow> old \<noteq> val | None \<Rightarrow> False)
                  then Some DuplicateParameter
                  else param_loop params (continuation(baseName \<mapsto> pmap(key \<mapsto> val))) rest)
            else
              (if (case params key of Some old \<Rightarrow> old \<noteq> val | None \<Rightarrow> False)
               then Some DuplicateParameter
               else param_loop (params(key \<mapsto> val)) continuation rest)))"
  by pat_completeness auto


text \<open>
  \<open>ParseMediaType\<close> returns the media type (lower case, without parameters) or an error.
  The parameters it also returns are left out: no caller in this file reads them, and
  putting them together after the loop cannot fail. Neither can the media type that Go
  returns next to \<open>ErrInvalidMediaParameter\<close> be seen, since the callers read the media
  type only when the error is nil.
\<close>

definition ParseMediaType :: "string \<Rightarrow> mime_error + string" where
  "ParseMediaType v =
     (let base = takeWhile (\<lambda>c. c \<noteq> CHR '';'') v;
          mediatype = TrimSpace (ToLower base)
      in case checkMediaTypeDisposition mediatype of
           Some e \<Rightarrow> Inl e
         | None \<Rightarrow>
             (case param_loop Map.empty Map.empty (drop (length base) v) of
                Some e \<Rightarrow> Inl e
              | None \<Rightarrow> Inr mediatype))"

subsection \<open>Requests, decoders and encoders\<close>

text \<open>
  \<open>http.Request\<close>, with the two fields the file reads. \<open>Header\<close> maps a header name in
  canonical form to its values; \<open>Header.Get\<close> returns the first value of a name and the
  empty string when there is none. Both names the file asks for are in canonical form
  already.
\<close>

record Request =
  Header :: "string \<rightharpoonup> string list"
  Body :: string

definition Header_Get :: "(string \<rightharpoonup> string list) \<Rightarrow> string \<Rightarrow> string" where
  "Header_Get h key = (case h key of None \<Rightarrow> [] | Some [] \<Rightarrow> [] | Some (v # _) \<Rightarrow> v)"

text \<open>
  A decoder is the codec's decoder bound to the stream it reads; an encoder is the codec's
  encoder bound to the response writer it writes to, held by reference.
\<close>

type_synonym ref = nat

datatype Decoder = json_NewDecoder string | gob_NewDecoder string | xml_NewDecoder string

datatype Encoder = json_NewEncoder ref | gob_NewEncoder ref | xml_NewEncoder ref

definition NewHTTPDecoder :: "Request \<Rightarrow> Decoder" where
  "NewHTTPDecoder r =
     (let contentType = Header_Get (Header r) ''Content-Type'';
          contentType =
            (if contentType = [] then ''application/json''
             else (case ParseMediaType contentType of
                     Inr mediaType \<Rightarrow> mediaType
                   | Inl err \<Rightarrow> contentType))
      in if contentType = ''application/json'' then json_NewDecoder (Body r)
         else if contentType = ''application/gob'' then gob_NewDecoder (Body r)
         else if contentType = ''application/xml'' then xml_NewDecoder (Body r)
         else json_NewDecoder (Body r))"

definition NewHTTPEncoder :: "ref \<Rightarrow> Request \<Rightarrow> Encoder" where
  "NewHTTPEncoder w r =
     (let accept = Header_Get (Header r) ''Accept'';
          accept =
            (if accept = [] then ''application/json''
             else (case ParseMediaType accept of
                     Inr mediaType \<Rightarrow> mediaType
                   | Inl err \<Rightarrow> accept))
      in if accept = ''application/json'' then json_NewEncoder w
         else if accept = ''application/gob'' then gob_NewEncoder w
         else if accept = ''application/xml'' then xml_NewEncoder w
         else json_NewEncoder w)"

definition ResponseContentType :: "Request \<Rightarrow> string" where
  "ResponseContentType r =
     (let accept = Header_Get (Header r) ''Accept'' in
      if accept = [] then ''application/json''
      else let accept = (case ParseMediaType accept of
                           Inr mediaType \<Rightarrow> mediaType
                         | Inl err \<Rightarrow> accept)
           in if accept = ''application/json'' \<or> accept = ''application/gob''
                 \<or> accept = ''application/xml''
              then accept
              else ''application/json'')"


subsection \<open>The response writer, the log and the random source\<close>

text \<open>
  \<open>http.ResponseWriter\<close> as the interface documents it: \<open>Header()\<close> is the header map a
  handler changes; the first \<open>WriteHeader\<close> sends the status line with the headers as they
  are then, and later calls change nothing; \<open>Write\<close> calls \<open>WriteHeader(200)\<close> first when
  there was no \<open>WriteHeader\<close>, and appends the bytes to the body unless the connection
  fails. \<open>w_fails\<close> is the error with which every \<open>Write\<close> on this writer fails
  (\<open>None\<close>: writes succeed); it belongs to the environment.
\<close>

record ResponseWriter =
  w_header :: "string \<rightharpoonup> string list"
  w_sent :: "(int \<times> (string \<rightharpoonup> string list)) option"
  w_body :: string
  w_fails :: "string option"

text \<open>
  The state the file works on: the response writers by reference, the entries logged with
  \<open>logger.Error\<close> (each the list of its key and value arguments), and the bytes that
  \<open>crypto/rand.Reader\<close> delivers next (a list shorter than a read models a failing source).
\<close>

record State =
  writers :: "ref \<Rightarrow> ResponseWriter"
  log :: "string list list"
  rand_Reader :: string

definition Header_Set :: "ref \<Rightarrow> string \<Rightarrow> string \<Rightarrow> State \<Rightarrow> State" where
  "Header_Set w key val s =
     s\<lparr>writers := (writers s)(w := (writers s w)\<lparr>w_header := (w_header (writers s w))(key \<mapsto> [val])\<rparr>)\<rparr>"

definition WriteHeader :: "ref \<Rightarrow> int \<Rightarrow> State \<Rightarrow> State" where
  "WriteHeader w code s =
     (case w_sent (writers s w) of
        Some _ \<Rightarrow> s
      | None \<Rightarrow>
          s\<lparr>writers := (writers s)(w := (writers s w)\<lparr>w_sent := Some (code, w_header (writers s w))\<rparr>)\<rparr>)"

definition Write :: "ref \<Rightarrow> string \<Rightarrow> State \<Rightarrow> string option \<times> State" where
  "Write w b s =
     (let s1 = WriteHeader w 200 s in
      case w_fails (writers s1 w) of
        Some e \<Rightarrow> (Some e, s1)
      | None \<Rightarrow>
          (None, s1\<lparr>writers := (writers s1)(w := (writers s1 w)\<lparr>w_body := w_body (writers s1 w) @ b\<rparr>)\<rparr>))"

definition logger_Error :: "string list \<Rightarrow> State \<Rightarrow> State" where
  "logger_Error keyvals s = s\<lparr>log := log s @ [keyvals]\<rparr>"

text \<open>
  \<open>b := make([]byte, n); io.ReadFull(rand.Reader, b)\<close>, the error dropped as the file
  drops it: the bytes that were read, then zeros.
\<close>

definition ReadFull_rand :: "nat \<Rightarrow> State \<Rightarrow> string \<times> State" where
  "ReadFull_rand n s =
     (take n (rand_Reader s) @ replicate (n - length (rand_Reader s)) (CHR 0x00),
      s\<lparr>rand_Reader := drop n (rand_Reader s)\<rparr>)"

subsection \<open>\<open>base64.RawURLEncoding\<close>\<close>

definition encodeURL :: string where
  "encodeURL = ''ABCDEFGHIJKLMNOPQRSTUVWXYZabcdefghijklmnopqrstuvwxyz0123456789-_''"

fun EncodeToString :: "string \<Rightarrow> string" where
  "EncodeToString [] = []"
| "EncodeToString [a] =
     (let v = byte a * 65536 in
      [encodeURL ! (v div 262144 mod 64), encodeURL ! (v div 4096 mod 64)])"
| "EncodeToString [a, b] =
     (let v = byte a * 65536 + byte b * 256 in
      [encodeURL ! (v div 262144 mod 64), encodeURL ! (v div 4096 mod 64),
       encodeURL ! (v div 64 mod 64)])"
| "EncodeToString (a # b # c # rest) =
     (let v = byte a * 65536 + byte b * 256 + byte c in
      [encodeURL ! (v div 262144 mod 64), encodeURL ! (v div 4096 mod 64),
       encodeURL ! (v div 64 mod 64), encodeURL ! (v mod 64)] @ EncodeToString rest)"

subsection \<open>Errors and error responses\<close>

text \<open>
  Modelled from the spec: \<open>goa.Error\<close> (package goa of this repository is not among the
  sources). An error handed to \<open>Encode\<close> is either a classified application error, which
  carries a declared status code and a message, or any other error value, which has its
  message only.
\<close>

datatype handled_error = goa_Error int string | other_error string

text \<open>The method \<open>Error()\<close> of an error: its message.\<close>

fun Error :: "handled_error \<Rightarrow> string" where
  "Error (goa_Error st msg) = msg"
| "Error (other_error msg) = msg"

text \<open>
  Modelled from the spec: \<open>rest.HTTPStatus\<close> (package rest of this repository is not among
  the sources). The HTTP status written is the error's declared status.
\<close>

definition HTTPStatus :: "int \<Rightarrow> int" where
  "HTTPStatus st = st"

text \<open>
  Modelled from the spec: \<open>rest.ErrorResponse\<close> (package rest is not among the sources).
  The structured error-response object with the fields \<open>status\<close> and \<open>message\<close> of the
  error response body schema.
\<close>

record ErrorResponse =
  status :: int
  message :: string

text \<open>
  Modelled from the spec: \<open>rest.NewErrorResponse\<close> (package rest is not among the sources).
  The error-response object derived from a classified error: its status and its message.
\<close>

definition NewErrorResponse :: "int \<Rightarrow> string \<Rightarrow> ErrorResponse" where
  "NewErrorResponse st msg = \<lparr>status = st, message = msg\<rparr>"

subsection \<open>The encoders of the Go library\<close>

text \<open>
  \<open>utf8.DecodeRuneInString\<close> as far as the JSON encoder needs it: the number of bytes of
  the rune that a non-empty \<open>s\<close> starts with; 1 for a byte that starts no valid encoding.
\<close>

definition is_cont :: "char \<Rightarrow> bool" where
  "is_cont c = (0x80 \<le> byte c \<and> byte c \<le> 0xBF)"

definition rune_size :: "string \<Rightarrow> nat" where
  "rune_size s =
     (case s of
        [] \<Rightarrow> 0
      | c0 # t \<Rightarrow>
          if 0xC2 \<le> byte c0 \<and> byte c0 \<le> 0xDF then
            (case t of c1 # _ \<Rightarrow> if is_cont c1 then 2 else 1 | _ \<Rightarrow> 1)
          else if 0xE0 \<le> byte c0 \<and> byte c0 \<le> 0xEF then
            (case t of
               c1 # c2 # _ \<Rightarrow>
                 if (if byte c0 = 0xE0 then 0xA0 else 0x80) \<le> byte c1
                    \<and> byte c1 \<le> (if byte c0 = 0xED then 0x9F else 0xBF) \<and> is_cont c2
                 then 3 else 1
             | _ \<Rightarrow> 1)
          else if 0xF0 \<le> byte c0 \<and> byte c0 \<le> 0xF4 then
            (case t of
               c1 # c2 # c3 # _ \<Rightarrow>
                 if (if byte c0 = 0xF0 then 0x90 else 0x80) \<le> byte c1
                    \<and> byte c1 \<le> (if byte c0 = 0xF4 then 0x8F else 0xBF)
                    \<and> is_cont c2 \<and> is_cont c3
                 then 4 else 1
             | _ \<Rightarrow> 1)
          else 1)"

definition hex :: string where
  "hex = ''0123456789abcdef''"

text \<open>
  The escape of one ASCII byte in a JSON string, as \<open>encoding/json\<close> writes it with HTML
  escaping on (the default): the bytes from 0x20 on are copied, but for the double quote,
  the backslash, \<open>&\<close>, \<open><\<close> and \<open>>\<close>.
\<close>

definition json_escape :: "char \<Rightarrow> string" where
  "json_escape c =
     (if 0x20 \<le> byte c \<and> c \<notin> set [CHR 0x22, CHR ''&'', CHR ''<'', CHR ''>'', CHR 0x5C]
        then [c]
      else if c = CHR 0x5C \<or> c = CHR 0x22 then [CHR 0x5C, c]
      else if c = CHR 0x08 then [CHR 0x5C, CHR ''b'']
      else if c = CHR 0x0C then [CHR 0x5C, CHR ''f'']
      else if c = CHR 0x0A then [CHR 0x5C, CHR ''n'']
      else if c = CHR 0x0D then [CHR 0x5C, CHR ''r'']
      else if c = CHR 0x09 then [CHR 0x5C, CHR ''t'']
      else [CHR 0x5C] @ ''u00'' @ [hex ! (byte c div 16), hex ! (byte c mod 16)])"

fun json_chars :: "string \<Rightarrow> string" where
  "json_chars [] = []"
| "json_chars (c # cs) =
     (if byte c < 0x80 then json_escape c @ json_chars cs
      else if rune_size (c # cs) = 1 then [CHR 0x5C] @ ''ufffd'' @ json_chars cs
      else if has_prefix (c # cs) [CHR 0xE2, CHR 0x80, CHR 0xA8]
        then [CHR 0x5C] @ ''u2028'' @ json_chars (drop 2 cs)
      else if has_prefix (c # cs) [CHR 0xE2, CHR 0x80, CHR 0xA9]
        then [CHR 0x5C] @ ''u2029'' @ json_chars (drop 2 cs)
      else take (rune_size (c # cs)) (c # cs) @ json_chars (drop (rune_size (c # cs) - 1) cs))"

definition json_string :: "string \<Rightarrow> string" where
  "json_string s = [CHR 0x22] @ json_chars s @ [CHR 0x22]"

fun digits :: "nat \<Rightarrow> string" where
  "digits n = (if n < 10 then [hex ! n] else digits (n div 10) @ [hex ! (n mod 10)])"

declare digits.simps [simp del]

definition json_int :: "int \<Rightarrow> string" where
  "json_int i = (if i < 0 then ''-'' @ digits (nat (- i)) else digits (nat i))"

text \<open>
  \<open>json.Marshal\<close> of an error response: an object with the fields in the order of their
  declaration, under the keys \<open>status\<close> and \<open>message\<close> of the error response body
  schema, an integer in decimal and a string as \<open>encoding/json\<close> quotes it.
\<close>

definition json_Marshal :: "ErrorResponse \<Rightarrow> string" where
  \<open>json_Marshal v =
     ''{"status":'' @ json_int (status v) @ '',"message":'' @ json_string (message v) @ ''}''\<close>

text \<open>
  The gob and XML encodings are not modelled: what \<open>gob\<close> and \<open>xml\<close> make of an error
  response, an error or the bytes to write, is a parameter.
\<close>

record Codecs =
  gob_Marshal :: "ErrorResponse \<Rightarrow> string + string"
  xml_Marshal :: "ErrorResponse \<Rightarrow> string + string"

text \<open>
  \<open>Encode\<close> of an encoder. An encoder holds its writer as an \<open>io.Writer\<close>, so all it can
  do to it is \<open>Write\<close>. \<open>json.Encoder.Encode\<close> writes the JSON encoding of the value
  followed by a newline character; the result is the error of the encoding or of the write.
\<close>

fun Encoder_Encode :: "Codecs \<Rightarrow> Encoder \<Rightarrow> ErrorResponse \<Rightarrow> State \<Rightarrow> string option \<times> State" where
  "Encoder_Encode cs (json_NewEncoder w) v s = Write w (json_Marshal v @ [CHR 0x0A]) s"
| "Encoder_Encode cs (gob_NewEncoder w) v s =
     (case gob_Marshal cs v of Inl e \<Rightarrow> (Some e, s) | Inr b \<Rightarrow> Write w b s)"
| "Encoder_Encode cs (xml_NewEncoder w) v s =
     (case xml_Marshal cs v of Inl e \<Rightarrow> (Some e, s) | Inr b \<Rightarrow> Write w b s)"

subsection \<open>The error encoder\<close>

record errorEncoder =
  ee_w :: ref
  ee_r :: Request
  ee_encoder :: Encoder

text \<open>The logger argument is not used: \<open>Encode\<close> logs through package \<open>logger\<close>.\<close>

definition NewErrorHTTPEncoder :: "ref \<Rightarrow> Request \<Rightarrow> 'l \<Rightarrow> errorEncoder" where
  "NewErrorHTTPEncoder w r logger = \<lparr>ee_w = w, ee_r = r, ee_encoder = NewHTTPEncoder w r\<rparr>"

fun errorEncoder_Encode :: "Codecs \<Rightarrow> errorEncoder \<Rightarrow> handled_error \<Rightarrow> State \<Rightarrow> State" where
  "errorEncoder_Encode cs e (goa_Error st msg) s =
     (let s1 = Header_Set (ee_w e) ''Content-Type'' (ResponseContentType (ee_r e)) s;
          s2 = WriteHeader (ee_w e) (HTTPStatus st) s1;
          (err, s3) = Encoder_Encode cs (ee_encoder e) (NewErrorResponse st msg) s2
      in case err of
           Some x \<Rightarrow> logger_Error [''encoding'', x] s3
         | None \<Rightarrow> s3)"
| "errorEncoder_Encode cs e (other_error msg) s =
     (let (b, s1) = ReadFull_rand 6 s;
          id = EncodeToString b @ '': '';
          s2 = Header_Set (ee_w e) ''Content-Type'' ''text/plain'' s1;
          s3 = WriteHeader (ee_w e) 500 s2;
          (_, s4) = Write (ee_w e) (id @ Error (other_error msg)) s3
      in logger_Error [''id'', id, ''error'', Error (other_error msg)] s4)"


subsection \<open>Notions of the specification\<close>

text \<open>The three supported media types.\<close>

definition supported :: "string list" where
  "supported = [''application/json'', ''application/gob'', ''application/xml'']"

text \<open>
  The media type of a header value after parameter stripping: what the parser makes of
  it, and the raw value when the parser rejects it.
\<close>

definition stripped :: "string \<Rightarrow> string" where
  "stripped h = (case ParseMediaType h of Inr mediaType \<Rightarrow> mediaType | Inl err \<Rightarrow> h)"

text \<open>The media type that names the codec of an encoder.\<close>

fun encoder_media_type :: "Encoder \<Rightarrow> string" where
  "encoder_media_type (json_NewEncoder w) = ''application/json''"
| "encoder_media_type (gob_NewEncoder w) = ''application/gob''"
| "encoder_media_type (xml_NewEncoder w) = ''application/xml''"

text \<open>A request that carries the header \<open>name\<close> with the values \<open>vals\<close> and no other.\<close>

definition request :: "string \<Rightarrow> string list \<Rightarrow> Request" where
  "request name vals = \<lparr>Header = [name \<mapsto> vals], Body = ''body''\<rparr>"

text \<open>The media type that names the codec of a decoder.\<close>

fun decoder_media_type :: "Decoder \<Rightarrow> string" where
  "decoder_media_type (json_NewDecoder b) = ''application/json''"
| "decoder_media_type (gob_NewDecoder b) = ''application/gob''"
| "decoder_media_type (xml_NewDecoder b) = ''application/xml''"

text \<open>The lower case of an ASCII letter; every other byte is left as it is.\<close>

definition ascii_lower :: "char \<Rightarrow> char" where
  "ascii_lower c = (if 0x41 \<le> byte c \<and> byte c \<le> 0x5A then char_of (byte c + 0x20) else c)"

definition plain :: "char \<Rightarrow> bool" where
  "plain c = (byte c < 0x80 \<and> c \<noteq> CHR '';'')"

text \<open>
  A response writer on which nothing was set or written, codecs whose gob and XML
  encodings fail, a state of such writers with six bytes of randomness, and the same state
  on a connection that fails.
\<close>

definition fresh :: ResponseWriter where
  "fresh = \<lparr>w_header = Map.empty, w_sent = None, w_body = [], w_fails = None\<rparr>"

definition no_codecs :: Codecs where
  "no_codecs = \<lparr>gob_Marshal = (\<lambda>v. Inl ''gob''), xml_Marshal = (\<lambda>v. Inl ''xml'')\<rparr>"

definition state0 :: State where
  "state0 = \<lparr>writers = (\<lambda>w. fresh), log = [], rand_Reader = ''foobar''\<rparr>"

definition broken :: State where
  "broken = state0\<lparr>writers := (\<lambda>w. fresh\<lparr>w_fails := Some ''broken pipe''\<rparr>)\<rparr>"

section \<open>The parameter loop terminates\<close>

lemma trim_left_length: "length (trim_left encs s) \<le> length s"
proof (induction encs s rule: trim_left.induct)
  case (1 encs s)
  show ?case
  proof (cases "s \<noteq> [] \<and> 0 < space_width encs s")
    case True
    then have "length (trim_left encs (drop (space_width encs s) s)) \<le> length (drop (space_width encs s) s)"
      using 1 by simp
    then show ?thesis using True by (subst trim_left.simps) simp
  next
    case False
    then show ?thesis by (subst trim_left.simps) auto
  qed
qed

lemma TrimLeftSpace_length: "length (TrimLeftSpace s) \<le> length s"
  by (simp add: TrimLeftSpace_def trim_left_length)

lemma consumeToken_length: "length (snd (consumeToken v)) \<le> length v"
  by (simp add: consumeToken_def length_dropWhile_le)

lemma quoted_length: "quoted buf rs = Some (b, rest) \<Longrightarrow> length rest < length rs"
proof (induction buf rs rule: quoted.induct)
  case (1 buf)
  then show ?case by simp
next
  case (2 buf r rs)
  show ?case
  proof (cases "r = CHR 0x22")
    case True
    with 2(3) show ?thesis by simp
  next
    case q: False
    show ?thesis
    proof (cases "r = CHR 0x5C \<and> rs \<noteq> [] \<and> isTSpecial (hd rs)")
      case True
      with q 2(3) have "quoted (buf @ [hd rs]) (tl rs) = Some (b, rest)" by simp
      with 2(1) q True have "length rest < length (tl rs)" by blast
      then show ?thesis by simp
    next
      case e: False
      with q 2(3) have n: "\<not> (r = CHR 0x0D \<or> r = CHR 0x0A)"
        and "quoted (buf @ [r]) rs = Some (b, rest)"
        by (auto split: if_splits)
      with 2(2) q e have "length rest < length rs" by blast
      then show ?thesis by simp
    qed
  qed
qed

lemma consumeValue_length: "length (snd (consumeValue v)) \<le> length v"
  by (cases v) (auto simp: consumeValue_def consumeToken_def length_dropWhile_le
      split: option.splits dest!: quoted_length intro: le_SucI)

lemma consumeMediaParam_length:
  assumes "fst (consumeMediaParam v) \<noteq> []"
  shows "length (snd (snd (consumeMediaParam v))) < length v"
proof -
  define rest where "rest = TrimLeftSpace v"
  define rest1 where "rest1 = TrimLeftSpace (drop 1 rest)"
  define rest2 where "rest2 = snd (consumeToken rest1)"
  define rest3 where "rest3 = TrimLeftSpace rest2"
  define rest4 where "rest4 = TrimLeftSpace (drop 1 rest3)"
  define rest5 where "rest5 = snd (consumeValue rest4)"
  have p: "has_prefix rest '';''"
    using assms by (auto simp: consumeMediaParam_def Let_def rest_def split: if_splits prod.splits)
  have r: "snd (snd (consumeMediaParam v)) = rest5"
    using assms
    by (auto simp: consumeMediaParam_def Let_def rest_def rest1_def rest2_def rest3_def
        rest4_def rest5_def split: if_splits prod.splits)
  from p have "rest \<noteq> []" by (auto simp: has_prefix_def)
  then have "length (drop 1 rest) < length rest" by simp
  moreover have "length rest \<le> length v" by (simp add: rest_def TrimLeftSpace_length)
  moreover have "length rest1 \<le> length (drop 1 rest)" unfolding rest1_def by (rule TrimLeftSpace_length)
  moreover have "length rest2 \<le> length rest1" unfolding rest2_def by (rule consumeToken_length)
  moreover have "length rest3 \<le> length rest2" unfolding rest3_def by (rule TrimLeftSpace_length)
  moreover have "length (drop 1 rest3) \<le> length rest3" by simp
  moreover have "length rest4 \<le> length (drop 1 rest3)" unfolding rest4_def by (rule TrimLeftSpace_length)
  moreover have "length rest5 \<le> length rest4" unfolding rest5_def by (rule consumeValue_length)
  ultimately have "length rest5 < length v" by linarith
  then show ?thesis by (simp add: r)
qed

lemma param_loop_decreases:
  "fst (consumeMediaParam (TrimLeftSpace v)) \<noteq> [] \<Longrightarrow>
   length (snd (snd (consumeMediaParam (TrimLeftSpace v)))) < length v"
  using consumeMediaParam_length [of "TrimLeftSpace v"] TrimLeftSpace_length [of v] by linarith

termination param_loop
  by (relation "measure (\<lambda>(p, c, v). length v)") (auto simp: param_loop_decreases)



declare param_loop.simps [simp del]

section \<open>The parser on the media types used below\<close>

lemma ParseMediaType_json: "ParseMediaType ''application/json'' = Inr ''application/json''"
  by code_simp

lemma ParseMediaType_gob: "ParseMediaType ''application/gob'' = Inr ''application/gob''"
  by code_simp

lemma ParseMediaType_xml: "ParseMediaType ''application/xml'' = Inr ''application/xml''"
  by code_simp

lemma ParseMediaType_text_plain: "ParseMediaType ''text/plain'' = Inr ''text/plain''"
  by code_simp

lemma ParseMediaType_slash: "ParseMediaType ''/'' = Inl NoMediaType"
  by code_simp

lemma parse_fails_not_supported:
  assumes "ParseMediaType h = Inl e"
  shows "h \<noteq> ''application/json''" and "h \<noteq> ''application/gob''" and "h \<noteq> ''application/xml''"
  using assms ParseMediaType_json ParseMediaType_gob ParseMediaType_xml by auto

lemma Header_Get_request [simp]:
  "Header_Get (Header (request name (v # vs))) name = v"
  "Header_Get (Header (request name [])) name = []"
  "name' \<noteq> name \<Longrightarrow> Header_Get (Header (request name vals)) name' = []"
  "Body (request name vals) = ''body''"
  by (simp_all add: Header_Get_def request_def)

subsection \<open>Upper case, and headers without parameters\<close>

lemma ascii_lower_ascii: "byte (ascii_lower c) < 0x80 \<Longrightarrow> byte c < 0x80"
  by (auto simp: ascii_lower_def split: if_splits)

lemma ascii_lower_semicolon: "ascii_lower c \<noteq> CHR '';'' \<Longrightarrow> c \<noteq> CHR '';''"
  by (auto simp: ascii_lower_def byte_def)

lemma ParseMediaType_result:
  "ParseMediaType v = Inr m \<Longrightarrow> m = TrimSpace (ToLower (takeWhile (\<lambda>c. c \<noteq> CHR '';'') v))"
  by (auto simp: ParseMediaType_def Let_def split: option.splits)

lemma param_loop_Nil: "param_loop params continuation [] = None"
  by (simp add: param_loop.simps)


lemma ToLower_ascii: "\<forall>c\<in>set s. byte c < 0x80 \<Longrightarrow> ToLower s = map ascii_lower s"
proof (induction s)
  case Nil
  then show ?case by simp
next
  case (Cons c cs)
  have c: "byte c < 0x80" using Cons.prems by simp
  have "c \<noteq> CHR 0xC4" "c \<noteq> CHR 0xE2"
    using c by (auto simp: byte_def)
  then have "\<not> has_prefix (c # cs) [CHR 0xC4, CHR 0xB0]"
    and "\<not> has_prefix (c # cs) [CHR 0xE2, CHR 0x84, CHR 0xAA]"
    by (auto simp: has_prefix_def)
  then show ?case using Cons by (simp add: ascii_lower_def)
qed

lemma ParseMediaType_bare:
  assumes "\<forall>c\<in>set v. c \<noteq> CHR '';''"
  shows "ParseMediaType v =
     (case checkMediaTypeDisposition (TrimSpace (ToLower v)) of
        Some e \<Rightarrow> Inl e | None \<Rightarrow> Inr (TrimSpace (ToLower v)))"
proof -
  have tw: "takeWhile (\<lambda>c. c \<noteq> CHR '';'') v = v" using assms by (simp add: takeWhile_eq_all_conv)
  show ?thesis unfolding ParseMediaType_def Let_def tw
    by (simp add: param_loop_Nil split: option.splits)
qed


lemma plain_json: "list_all plain ''application/json''"
  by code_simp

lemma plain_gob: "list_all plain ''application/gob''"
  by code_simp

lemma plain_xml: "list_all plain ''application/xml''"
  by code_simp

lemma lower_json: "map ascii_lower ''application/json'' = ''application/json''"
  by code_simp

lemma lower_gob: "map ascii_lower ''application/gob'' = ''application/gob''"
  by code_simp

lemma lower_xml: "map ascii_lower ''application/xml'' = ''application/xml''"
  by code_simp


lemma supported_cases:
  "t \<in> set supported \<Longrightarrow> t = ''application/json'' \<or> t = ''application/gob'' \<or> t = ''application/xml''"
  by (simp add: supported_def)

lemma supported_plain:
  assumes "t \<in> set supported"
  shows "list_all plain t" and "map ascii_lower t = t"
  using supported_cases [OF assms] plain_json plain_gob plain_xml lower_json lower_gob lower_xml
  by blast+


lemma ParseMediaType_supported: "t \<in> set supported \<Longrightarrow> ParseMediaType t = Inr t"
  using supported_cases [of t] ParseMediaType_json ParseMediaType_gob ParseMediaType_xml by auto

lemma plainD: "list_all plain s \<Longrightarrow> c \<in> set s \<Longrightarrow> byte c < 0x80 \<and> c \<noteq> CHR '';''"
  by (simp add: list_all_iff plain_def)

lemma supported_normal:
  assumes "t \<in> set supported"
  shows "TrimSpace t = t" and "checkMediaTypeDisposition t = None"
proof -
  have p: "\<forall>c\<in>set t. byte c < 0x80" "\<forall>c\<in>set t. c \<noteq> CHR '';''"
    using supported_plain(1) [OF assms] plainD by blast+
  have l: "ToLower t = t" using p(1) supported_plain(2) [OF assms] ToLower_ascii [of t] by simp
  have "ParseMediaType t = Inr t" by (rule ParseMediaType_supported [OF assms])
  then have "(case checkMediaTypeDisposition (TrimSpace t) of
        Some e \<Rightarrow> Inl e | None \<Rightarrow> Inr (TrimSpace t)) = (Inr t :: mime_error + string)"
    using ParseMediaType_bare [OF p(2)] l by (simp split: option.splits)
  then show "TrimSpace t = t" and "checkMediaTypeDisposition t = None"
    by (auto split: option.splits)
qed

lemma ParseMediaType_any_case:
  assumes "map ascii_lower h = t" and "t \<in> set supported"
  shows "ParseMediaType h = Inr t"
proof -
  have "\<forall>c\<in>set h. ascii_lower c \<in> set t" using assms(1) by auto
  then have "\<forall>c\<in>set h. byte (ascii_lower c) < 0x80 \<and> ascii_lower c \<noteq> CHR '';''"
    using supported_plain(1) [OF assms(2)] plainD by blast
  then have p: "\<forall>c\<in>set h. byte c < 0x80" "\<forall>c\<in>set h. c \<noteq> CHR '';''"
    using ascii_lower_ascii ascii_lower_semicolon by blast+
  then have "ToLower h = t" using ToLower_ascii [of h] assms(1) by simp
  then show ?thesis
    using ParseMediaType_bare [OF p(2)] supported_normal [OF assms(2)] by (simp split: option.splits)
qed

section \<open>Selection of decoder, encoder and content type\<close>

text \<open>
  C1: for each of the three supported media types, a request whose \<open>Content-Type\<close> is
  \<open>application/t\<close> gets the decoder of codec \<open>t\<close> on its body, and a request whose
  \<open>Accept\<close> is \<open>application/t\<close> gets the encoder of codec \<open>t\<close> on the writer.
\<close>

theorem selection_of_supported_types:
  "(Header_Get (Header r) ''Content-Type'' = ''application/json''
      \<longrightarrow> NewHTTPDecoder r = json_NewDecoder (Body r)) \<and>
   (Header_Get (Header r) ''Content-Type'' = ''application/gob''
      \<longrightarrow> NewHTTPDecoder r = gob_NewDecoder (Body r)) \<and>
   (Header_Get (Header r) ''Content-Type'' = ''application/xml''
      \<longrightarrow> NewHTTPDecoder r = xml_NewDecoder (Body r)) \<and>
   (Header_Get (Header r) ''Accept'' = ''application/json''
      \<longrightarrow> NewHTTPEncoder w r = json_NewEncoder w) \<and>
   (Header_Get (Header r) ''Accept'' = ''application/gob''
      \<longrightarrow> NewHTTPEncoder w r = gob_NewEncoder w) \<and>
   (Header_Get (Header r) ''Accept'' = ''application/xml''
      \<longrightarrow> NewHTTPEncoder w r = xml_NewEncoder w)"
  by (simp add: NewHTTPDecoder_def NewHTTPEncoder_def Let_def
      ParseMediaType_json ParseMediaType_gob ParseMediaType_xml)

theorem selection_of_supported_types_witness:
  "NewHTTPDecoder (request ''Content-Type'' [''application/json'']) = json_NewDecoder ''body'' \<and>
   NewHTTPDecoder (request ''Content-Type'' [''application/gob'']) = gob_NewDecoder ''body'' \<and>
   NewHTTPDecoder (request ''Content-Type'' [''application/xml'']) = xml_NewDecoder ''body'' \<and>
   NewHTTPEncoder 0 (request ''Accept'' [''application/json'']) = json_NewEncoder 0 \<and>
   NewHTTPEncoder 0 (request ''Accept'' [''application/gob'']) = gob_NewEncoder 0 \<and>
   NewHTTPEncoder 0 (request ''Accept'' [''application/xml'']) = xml_NewEncoder 0"
  using selection_of_supported_types [of "request ''Content-Type'' [''application/json'']" 0]
    selection_of_supported_types [of "request ''Content-Type'' [''application/gob'']" 0]
    selection_of_supported_types [of "request ''Content-Type'' [''application/xml'']" 0]
    selection_of_supported_types [of "request ''Accept'' [''application/json'']" 0]
    selection_of_supported_types [of "request ''Accept'' [''application/gob'']" 0]
    selection_of_supported_types [of "request ''Accept'' [''application/xml'']" 0]
  by simp

text \<open>
  C2: when the header is empty or absent, or its media type after parameter stripping is
  none of the three supported ones, the decoder and the encoder selected are the JSON ones.
  Selection returns a decoder or an encoder on every request: its result type has no error,
  and the parser it calls is a total function.
\<close>

theorem fallback_to_json:
  "(Header_Get (Header r) ''Content-Type'' = []
      \<or> stripped (Header_Get (Header r) ''Content-Type'') \<notin> set supported
      \<longrightarrow> NewHTTPDecoder r = json_NewDecoder (Body r)) \<and>
   (Header_Get (Header r) ''Accept'' = []
      \<or> stripped (Header_Get (Header r) ''Accept'') \<notin> set supported
      \<longrightarrow> NewHTTPEncoder w r = json_NewEncoder w)"
  by (auto simp: NewHTTPDecoder_def NewHTTPEncoder_def Let_def stripped_def supported_def
      split: sum.splits)

theorem fallback_to_json_witness:
  "NewHTTPDecoder (request ''Content-Type'' []) = json_NewDecoder ''body'' \<and>
   NewHTTPDecoder (request ''Content-Type'' [''text/plain'']) = json_NewDecoder ''body'' \<and>
   NewHTTPDecoder (request ''Content-Type'' [''/'']) = json_NewDecoder ''body'' \<and>
   NewHTTPEncoder 0 (request ''Accept'' []) = json_NewEncoder 0 \<and>
   NewHTTPEncoder 0 (request ''Accept'' [''text/plain'']) = json_NewEncoder 0 \<and>
   NewHTTPEncoder 0 (request ''Accept'' [''/'']) = json_NewEncoder 0"
  using fallback_to_json [of "request ''Content-Type'' []" 0]
    fallback_to_json [of "request ''Content-Type'' [''text/plain'']" 0]
    fallback_to_json [of "request ''Content-Type'' [''/'']" 0]
    fallback_to_json [of "request ''Accept'' []" 0]
    fallback_to_json [of "request ''Accept'' [''text/plain'']" 0]
    fallback_to_json [of "request ''Accept'' [''/'']" 0]
  by (simp add: stripped_def supported_def ParseMediaType_text_plain ParseMediaType_slash)

text \<open>
  C10: the encoder selected from a request is the encoder of the codec that the response
  content type of the same request names.
\<close>

theorem encoder_matches_content_type:
  "ResponseContentType r = encoder_media_type (NewHTTPEncoder w r)"
  by (simp add: ResponseContentType_def NewHTTPEncoder_def Let_def split: sum.splits)

text \<open>
  C3: the response content type of a request is the media type parsed from its \<open>Accept\<close>
  header exactly when that media type is one of the three supported ones; it is
  \<open>application/json\<close> when the media type is another one, when the header is empty or
  absent, and when the parser rejects the header.
\<close>

theorem response_content_type_iff:
  "(Header_Get (Header r) ''Accept'' = [] \<longrightarrow> ResponseContentType r = ''application/json'') \<and>
   (\<forall>m. Header_Get (Header r) ''Accept'' \<noteq> []
        \<and> ParseMediaType (Header_Get (Header r) ''Accept'') = Inr m \<longrightarrow>
      (ResponseContentType r = m \<longleftrightarrow> m \<in> set supported) \<and>
      (m \<notin> set supported \<longrightarrow> ResponseContentType r = ''application/json'')) \<and>
   (\<forall>e. Header_Get (Header r) ''Accept'' \<noteq> []
        \<and> ParseMediaType (Header_Get (Header r) ''Accept'') = Inl e \<longrightarrow>
      ResponseContentType r = ''application/json'')"
proof (intro conjI allI impI)
  assume "Header_Get (Header r) ''Accept'' = []"
  then show "ResponseContentType r = ''application/json''"
    by (simp add: ResponseContentType_def)
next
  fix m
  assume "Header_Get (Header r) ''Accept'' \<noteq> []
    \<and> ParseMediaType (Header_Get (Header r) ''Accept'') = Inr m"
  then show "ResponseContentType r = m \<longleftrightarrow> m \<in> set supported"
    by (auto simp: ResponseContentType_def Let_def supported_def)
next
  fix m
  assume "Header_Get (Header r) ''Accept'' \<noteq> []
    \<and> ParseMediaType (Header_Get (Header r) ''Accept'') = Inr m"
    and "m \<notin> set supported"
  then show "ResponseContentType r = ''application/json''"
    by (auto simp: ResponseContentType_def Let_def supported_def)
next
  fix e
  assume "Header_Get (Header r) ''Accept'' \<noteq> []
    \<and> ParseMediaType (Header_Get (Header r) ''Accept'') = Inl e"
  then show "ResponseContentType r = ''application/json''"
    using parse_fails_not_supported [of "Header_Get (Header r) ''Accept''" e]
    by (simp add: ResponseContentType_def Let_def)
qed

theorem response_content_type_iff_witness:
  "ResponseContentType (request ''Accept'' []) = ''application/json'' \<and>
   ResponseContentType (request ''Accept'' [''application/gob'']) = ''application/gob'' \<and>
   ResponseContentType (request ''Accept'' [''text/plain'']) = ''application/json'' \<and>
   ResponseContentType (request ''Accept'' [''/'']) = ''application/json''"
  using response_content_type_iff [of "request ''Accept'' []"]
    response_content_type_iff [of "request ''Accept'' [''application/gob'']"]
    response_content_type_iff [of "request ''Accept'' [''text/plain'']"]
    response_content_type_iff [of "request ''Accept'' [''/'']"]
  by (simp add: supported_def ParseMediaType_gob ParseMediaType_text_plain ParseMediaType_slash)

text \<open>
  C9: a header value that is a supported media type but for the case of its letters
  selects the decoder and the encoder of that media type, and that media type, in lower
  case, is the response content type.
\<close>

theorem matching_ignores_case:
  assumes "map ascii_lower h = t" and "t \<in> set supported"
  shows "(Header_Get (Header r) ''Content-Type'' = h \<longrightarrow>
            decoder_media_type (NewHTTPDecoder r) = t) \<and>
         (Header_Get (Header r) ''Accept'' = h \<longrightarrow>
            encoder_media_type (NewHTTPEncoder w r) = t \<and> ResponseContentType r = t)"
proof -
  have p: "ParseMediaType h = Inr t" by (rule ParseMediaType_any_case [OF assms])
  have n: "h \<noteq> []" using assms supported_cases [of t] by auto
  show ?thesis
    using p n supported_cases [OF assms(2)]
    by (auto simp: NewHTTPDecoder_def NewHTTPEncoder_def ResponseContentType_def Let_def)
qed

theorem matching_ignores_case_witness:
  "NewHTTPDecoder (request ''Content-Type'' [''Application/XML'']) = xml_NewDecoder ''body'' \<and>
   NewHTTPEncoder 0 (request ''Accept'' [''APPLICATION/GOB'']) = gob_NewEncoder 0 \<and>
   ResponseContentType (request ''Accept'' [''APPLICATION/GOB'']) = ''application/gob''"
proof -
  have x: "map ascii_lower ''Application/XML'' = ''application/xml''"
    by code_simp
  have g: "map ascii_lower ''APPLICATION/GOB'' = ''application/gob''"
    by code_simp
  have sx: "''application/xml'' \<in> set supported" and sg: "''application/gob'' \<in> set supported"
    by (simp_all add: supported_def)
  have "decoder_media_type (NewHTTPDecoder (request ''Content-Type'' [''Application/XML'']))
      = ''application/xml''"
    using matching_ignores_case [OF x sx, of "request ''Content-Type'' [''Application/XML'']" 0]
    by simp
  moreover have "Body (request ''Content-Type'' [''Application/XML'']) = ''body''"
    by simp
  ultimately have d: "NewHTTPDecoder (request ''Content-Type'' [''Application/XML''])
      = xml_NewDecoder ''body''"
    by (auto simp: NewHTTPDecoder_def Let_def split: if_splits)
  have "encoder_media_type (NewHTTPEncoder 0 (request ''Accept'' [''APPLICATION/GOB'']))
      = ''application/gob'' \<and>
    ResponseContentType (request ''Accept'' [''APPLICATION/GOB'']) = ''application/gob''"
    using matching_ignores_case [OF g sg, of "request ''Accept'' [''APPLICATION/GOB'']" 0]
    by simp
  then have "NewHTTPEncoder 0 (request ''Accept'' [''APPLICATION/GOB'']) = gob_NewEncoder 0
     \<and> ResponseContentType (request ''Accept'' [''APPLICATION/GOB'']) = ''application/gob''"
    by (auto simp: NewHTTPEncoder_def Let_def split: if_splits)
  with d show ?thesis by simp
qed

subsection \<open>Headers with parameters\<close>

lemma consumeMediaParam_eval:
  assumes "TrimLeftSpace v = CHR '';'' # r0"
    and "consumeToken (TrimLeftSpace r0) = (p0, r2)"
    and "ToLower p0 = p" and "p \<noteq> []"
    and "TrimLeftSpace r2 = CHR ''='' # r3"
    and "consumeValue (TrimLeftSpace r3) = (val, r5)"
    and "val \<noteq> [] \<or> r5 \<noteq> TrimLeftSpace r3"
  shows "consumeMediaParam v = (p, val, r5)"
  using assms(4,7) unfolding consumeMediaParam_def Let_def assms(1)
  by (simp add: has_prefix_def assms(2,3,5,6))

lemma consumeMediaParam_no_equals:
  assumes "TrimLeftSpace v = CHR '';'' # r0"
    and "consumeToken (TrimLeftSpace r0) = (p0, r2)"
    and "\<not> has_prefix (TrimLeftSpace r2) ''=''"
  shows "consumeMediaParam v = ([], [], v)"
  using assms(3) unfolding consumeMediaParam_def Let_def assms(1)
  by (simp add: has_prefix_def assms(2))

lemma param_loop_plain:
  assumes "v \<noteq> []" and "TrimLeftSpace v = v1" and "v1 \<noteq> []"
    and "consumeMediaParam v1 = (key, val, rest)" and "key \<noteq> []" and "CHR ''*'' \<notin> set key"
  shows "param_loop params continuation v =
     (if (case params key of Some old \<Rightarrow> old \<noteq> val | None \<Rightarrow> False) then Some DuplicateParameter
      else param_loop (params(key \<mapsto> val)) continuation rest)"
  by (subst param_loop.simps) (simp add: assms Let_def)

lemma param_loop_invalid:
  assumes "v \<noteq> []" and "TrimLeftSpace v = v1" and "v1 \<noteq> []"
    and "consumeMediaParam v1 = ([], val, rest)" and "TrimSpace rest \<noteq> '';''"
  shows "param_loop params continuation v = Some ErrInvalidMediaParameter"
  by (subst param_loop.simps) (simp add: assms)

lemma param_charset_utf8:
  "consumeMediaParam (''; charset=utf-8'' @ rest) = (''charset'', ''utf-8'', rest)"
  if "rest = [] \<or> rest = ''; charset=ascii''"
proof (rule consumeMediaParam_eval)
  show "TrimLeftSpace (''; charset=utf-8'' @ rest) = CHR '';'' # '' charset=utf-8'' @ rest"
    using that by (rule disjE) (simp, code_simp, simp, code_simp)
  show "consumeToken (TrimLeftSpace ('' charset=utf-8'' @ rest)) = (''charset'', ''=utf-8'' @ rest)"
    using that by (rule disjE) (simp, code_simp, simp, code_simp)
  show "ToLower ''charset'' = ''charset''" by code_simp
  show "''charset'' \<noteq> []" by simp
  show "TrimLeftSpace (''=utf-8'' @ rest) = CHR ''='' # ''utf-8'' @ rest"
    using that by (rule disjE) (simp, code_simp, simp, code_simp)
  show "consumeValue (TrimLeftSpace (''utf-8'' @ rest)) = (''utf-8'', rest)"
    using that by (rule disjE) (simp, code_simp, simp, code_simp)
  show "''utf-8'' \<noteq> [] \<or> rest \<noteq> TrimLeftSpace (''utf-8'' @ rest)" by simp
qed

lemma param_charset_ascii:
  "consumeMediaParam ''; charset=ascii'' = (''charset'', ''ascii'', [])"
proof (rule consumeMediaParam_eval)
  show "TrimLeftSpace ''; charset=ascii'' = CHR '';'' # '' charset=ascii''" by code_simp
  show "consumeToken (TrimLeftSpace '' charset=ascii'') = (''charset'', ''=ascii'')" by code_simp
  show "ToLower ''charset'' = ''charset''" by code_simp
  show "''charset'' \<noteq> []" by simp
  show "TrimLeftSpace ''=ascii'' = CHR ''='' # ''ascii''" by code_simp
  show "consumeValue (TrimLeftSpace ''ascii'') = (''ascii'', [])" by code_simp
  show "''ascii'' \<noteq> [] \<or> [] \<noteq> TrimLeftSpace ''ascii''" by simp
qed

lemma param_charset_alone:
  "consumeMediaParam ''; charset'' = ([], [], ''; charset'')"
proof (rule consumeMediaParam_no_equals)
  show "TrimLeftSpace ''; charset'' = CHR '';'' # '' charset''" by code_simp
  show "consumeToken (TrimLeftSpace '' charset'') = (''charset'', [])" by code_simp
  show "\<not> has_prefix (TrimLeftSpace []) ''=''" by code_simp
qed

lemma param_loop_charset_utf8:
  "param_loop Map.empty Map.empty ''; charset=utf-8'' = None"
proof -
  have t: "TrimLeftSpace ''; charset=utf-8'' = ''; charset=utf-8''" by code_simp
  show ?thesis
    using param_loop_plain [OF _ t _ param_charset_utf8 [of "[]", simplified], of Map.empty Map.empty]
    by (simp add: param_loop_Nil)
qed

lemma param_loop_charset_twice:
  "param_loop Map.empty Map.empty ''; charset=utf-8; charset=ascii'' = Some DuplicateParameter"
proof -
  have t: "TrimLeftSpace ''; charset=utf-8; charset=ascii'' = ''; charset=utf-8; charset=ascii''"
    by code_simp
  have t': "TrimLeftSpace ''; charset=ascii'' = ''; charset=ascii''" by code_simp
  have "param_loop [''charset'' \<mapsto> ''utf-8''] Map.empty ''; charset=ascii'' = Some DuplicateParameter"
    using param_loop_plain [OF _ t' _ param_charset_ascii, of "[''charset'' \<mapsto> ''utf-8'']" Map.empty]
    by simp
  then show ?thesis
    using param_loop_plain [OF _ t _ param_charset_utf8 [of "''; charset=ascii''", simplified],
        of Map.empty Map.empty]
    by simp
qed

lemma param_loop_charset_alone:
  "param_loop Map.empty Map.empty ''; charset'' = Some ErrInvalidMediaParameter"
proof -
  have t: "TrimLeftSpace ''; charset'' = ''; charset''" by code_simp
  have s: "TrimSpace ''; charset'' \<noteq> '';''" by code_simp
  show ?thesis
    using param_loop_invalid [OF _ t _ param_charset_alone s] by simp
qed

lemma ParseMediaType_params:
  assumes "t \<in> set supported"
  shows "ParseMediaType (t @ CHR '';'' # ps) =
     (case param_loop Map.empty Map.empty (CHR '';'' # ps) of Some e \<Rightarrow> Inl e | None \<Rightarrow> Inr t)"
proof -
  have p: "\<forall>c\<in>set t. byte c < 0x80" "\<forall>c\<in>set t. c \<noteq> CHR '';''"
    using supported_plain(1) [OF assms] plainD by blast+
  have tw: "takeWhile (\<lambda>c. c \<noteq> CHR '';'') (t @ CHR '';'' # ps) = t"
    using p(2) by (simp add: takeWhile_tail takeWhile_eq_all_conv)
  have l: "ToLower t = t" using p(1) supported_plain(2) [OF assms] ToLower_ascii [of t] by simp
  show ?thesis
    unfolding ParseMediaType_def Let_def tw l
    by (simp add: supported_normal [OF assms] split: option.splits)
qed

lemma ParseMediaType_json_charset:
  "ParseMediaType ''application/json; charset=utf-8'' = Inr ''application/json''"
  using ParseMediaType_params [of "''application/json''" "'' charset=utf-8''"]
  by (simp add: supported_def param_loop_charset_utf8)

lemma ParseMediaType_xml_charset_twice:
  "ParseMediaType ''application/xml; charset=utf-8; charset=ascii'' = Inl DuplicateParameter"
  using ParseMediaType_params [of "''application/xml''" "'' charset=utf-8; charset=ascii''"]
  by (simp add: supported_def param_loop_charset_twice)

lemma ParseMediaType_xml_charset_alone:
  "ParseMediaType ''application/xml; charset'' = Inl ErrInvalidMediaParameter"
  using ParseMediaType_params [of "''application/xml''" "'' charset''"]
  by (simp add: supported_def param_loop_charset_alone)

text \<open>
  The parser accepts every parameter \<open>name=value\<close> whose name and value are non-empty
  tokens, after any supported media type.
\<close>

lemma space_width_other:
  assumes "c \<notin> set [CHR 0x09, CHR 0x0A, CHR 0x0B, CHR 0x0C, CHR 0x0D, CHR 0x20,
                      CHR 0xC2, CHR 0xE1, CHR 0xE2, CHR 0xE3]"
  shows "space_width space_runes (c # cs) = 0"
  using assms by (simp add: space_width_def space_runes_def has_prefix_def)

lemma TrimLeftSpace_other:
  assumes "c \<notin> set [CHR 0x09, CHR 0x0A, CHR 0x0B, CHR 0x0C, CHR 0x0D, CHR 0x20,
                      CHR 0xC2, CHR 0xE1, CHR 0xE2, CHR 0xE3]"
  shows "TrimLeftSpace (c # cs) = c # cs"
  unfolding TrimLeftSpace_def
  by (subst trim_left.simps) (simp add: space_width_other [OF assms])

lemma TrimLeftSpace_space: "TrimLeftSpace (CHR '' '' # cs) = TrimLeftSpace cs"
proof -
  have "space_width space_runes (CHR '' '' # cs) = 1"
    by (simp add: space_width_def space_runes_def has_prefix_def)
  then show ?thesis
    unfolding TrimLeftSpace_def by (subst trim_left.simps) simp
qed

lemma token_char_no_space:
  assumes "isTokenChar c"
  shows "c \<notin> set [CHR 0x09, CHR 0x0A, CHR 0x0B, CHR 0x0C, CHR 0x0D, CHR 0x20,
                    CHR 0xC2, CHR 0xE1, CHR 0xE2, CHR 0xE3]"
  using assms by (auto simp: isTokenChar_def byte_def)

lemma TrimLeftSpace_token: "isTokenChar c \<Longrightarrow> TrimLeftSpace (c # cs) = c # cs"
  by (rule TrimLeftSpace_other [OF token_char_no_space])


lemma not_token_equals: "\<not> isTokenChar CHR ''=''"
  by (simp add: isTokenChar_def isTSpecial_def)

lemma not_token_quote: "\<not> isTokenChar (CHR 0x22)"
  by (simp add: isTokenChar_def isTSpecial_def)

lemma consumeToken_all: "list_all isTokenChar k \<Longrightarrow> consumeToken k = (k, [])"
  by (simp add: consumeToken_def list_all_iff takeWhile_eq_all_conv dropWhile_eq_Nil_conv)

lemma consumeToken_equals:
  "list_all isTokenChar k \<Longrightarrow> consumeToken (k @ CHR ''='' # rest) = (k, CHR ''='' # rest)"
  by (simp add: consumeToken_def list_all_iff takeWhile_tail takeWhile_eq_all_conv
      dropWhile_append not_token_equals dropWhile_eq_Nil_conv)

lemma ToLower_Nil_iff: "ToLower s = [] \<longleftrightarrow> s = []"
  by (cases s) simp_all

lemma consumeMediaParam_token:
  assumes "k \<noteq> []" and "list_all isTokenChar k" and "v \<noteq> []" and "list_all isTokenChar v"
  shows "consumeMediaParam (''; '' @ k @ ''='' @ v) = (ToLower k, v, [])"
proof (rule consumeMediaParam_eval)
  obtain k0 ks where k: "k = k0 # ks" using assms(1) by (cases k) auto
  obtain v0 vs where v: "v = v0 # vs" using assms(3) by (cases v) auto
  have k0: "isTokenChar k0" using assms(2) k by simp
  have v0: "isTokenChar v0" using assms(4) v by simp
  show "TrimLeftSpace (''; '' @ k @ ''='' @ v) = CHR '';'' # ('' '' @ k @ ''='' @ v)"
    by (simp add: TrimLeftSpace_other)
  have "TrimLeftSpace ('' '' @ k @ ''='' @ v) = k @ ''='' @ v"
    using TrimLeftSpace_token [OF k0] by (simp add: TrimLeftSpace_space k)
  then show "consumeToken (TrimLeftSpace ('' '' @ k @ ''='' @ v)) = (k, ''='' @ v)"
    using consumeToken_equals [OF assms(2), of v] by simp
  show "ToLower k = ToLower k" by simp
  show "ToLower k \<noteq> []" using assms(1) by (simp add: ToLower_Nil_iff)
  show "TrimLeftSpace (''='' @ v) = CHR ''='' # v"
    by (simp add: TrimLeftSpace_other)
  have "v0 \<noteq> CHR 0x22" using v0 not_token_quote by auto
  then show "consumeValue (TrimLeftSpace v) = (v, [])"
    using TrimLeftSpace_token [OF v0] consumeToken_all [OF assms(4)]
    by (simp add: v consumeValue_def)
  show "v \<noteq> [] \<or> [] \<noteq> TrimLeftSpace v" using assms(3) by simp
qed

lemma param_loop_token:
  assumes "k \<noteq> []" and "list_all isTokenChar k" and "v \<noteq> []" and "list_all isTokenChar v"
  shows "param_loop Map.empty Map.empty (''; '' @ k @ ''='' @ v) = None"
proof -
  define x where "x = ''; '' @ k @ ''='' @ v"
  have t: "TrimLeftSpace x = x"
    by (simp add: x_def TrimLeftSpace_other)
  have c: "consumeMediaParam x = (ToLower k, v, [])"
    unfolding x_def by (rule consumeMediaParam_token [OF assms])
  have n: "ToLower k \<noteq> []" using assms(1) by (simp add: ToLower_Nil_iff)
  have x: "x \<noteq> []" by (simp add: x_def)
  have "param_loop Map.empty Map.empty x = None"
    by (subst param_loop.simps) (simp add: t c n x Let_def param_loop_Nil)
  then show ?thesis by (simp add: x_def)
qed

lemma ParseMediaType_token_parameter:
  assumes "t \<in> set supported"
    and "k \<noteq> []" and "list_all isTokenChar k" and "v \<noteq> []" and "list_all isTokenChar v"
  shows "ParseMediaType (t @ ''; '' @ k @ ''='' @ v) = Inr t"
  using ParseMediaType_params [OF assms(1), of "'' '' @ k @ ''='' @ v"]
    param_loop_token [OF assms(2-5)]
  by simp

text \<open>
  C4, as stated, fails: a supported media type followed by parameters that the parser
  rejects, here the same parameter name twice with different values, is matched as the raw
  header value, so the request gets the JSON decoder, the JSON encoder and the content type
  \<open>application/json\<close>, not those of the bare media type \<open>application/xml\<close>.
\<close>

theorem parameters_counterexample:
  "NewHTTPDecoder (request ''Content-Type'' [''application/xml; charset=utf-8; charset=ascii''])
     \<noteq> NewHTTPDecoder (request ''Content-Type'' [''application/xml'']) \<and>
   NewHTTPEncoder 0 (request ''Accept'' [''application/xml; charset=utf-8; charset=ascii''])
     \<noteq> NewHTTPEncoder 0 (request ''Accept'' [''application/xml'']) \<and>
   ResponseContentType (request ''Accept'' [''application/xml; charset=utf-8; charset=ascii''])
     \<noteq> ResponseContentType (request ''Accept'' [''application/xml''])"
  by (simp add: NewHTTPDecoder_def NewHTTPEncoder_def ResponseContentType_def Let_def
      ParseMediaType_xml ParseMediaType_xml_charset_twice)

text \<open>
  C4, amended: for every header value made of a supported media type followed by
  parameters that the parser accepts, the decoder, the encoder and the response content
  type are those of the bare media type.
\<close>

theorem parameters_stripped:
  assumes "t \<in> set supported" and "ParseMediaType (t @ CHR '';'' # ps) = Inr m"
  shows "(Header_Get (Header r) ''Content-Type'' = t @ CHR '';'' # ps \<longrightarrow>
            NewHTTPDecoder r = NewHTTPDecoder (r\<lparr>Header := (Header r)(''Content-Type'' \<mapsto> [t])\<rparr>)) \<and>
         (Header_Get (Header r) ''Accept'' = t @ CHR '';'' # ps \<longrightarrow>
            NewHTTPEncoder w r = NewHTTPEncoder w (r\<lparr>Header := (Header r)(''Accept'' \<mapsto> [t])\<rparr>) \<and>
            ResponseContentType r = ResponseContentType (r\<lparr>Header := (Header r)(''Accept'' \<mapsto> [t])\<rparr>) \<and>
            ResponseContentType r = t)"
proof -
  have m: "ParseMediaType (t @ CHR '';'' # ps) = Inr t"
    using assms(2) ParseMediaType_params [OF assms(1), of ps] by (auto split: option.splits)
  have b: "ParseMediaType t = Inr t" by (rule ParseMediaType_supported [OF assms(1)])
  have n: "t \<noteq> []" using supported_cases [OF assms(1)] by auto
  show ?thesis
    using m b n supported_cases [OF assms(1)]
    by (auto simp: NewHTTPDecoder_def NewHTTPEncoder_def ResponseContentType_def Let_def
        Header_Get_def)
qed

theorem parameters_stripped_witness:
  "NewHTTPDecoder (request ''Content-Type'' [''application/json; charset=utf-8''])
     = NewHTTPDecoder (request ''Content-Type'' [''application/json'']) \<and>
   NewHTTPEncoder 0 (request ''Accept'' [''application/json; charset=utf-8''])
     = NewHTTPEncoder 0 (request ''Accept'' [''application/json'']) \<and>
   ResponseContentType (request ''Accept'' [''application/json; charset=utf-8''])
     = ''application/json''"
proof -
  have j: "''application/json'' \<in> set supported" by (simp add: supported_def)
  have p: "ParseMediaType (''application/json'' @ CHR '';'' # '' charset=utf-8'') = Inr ''application/json''"
    using ParseMediaType_json_charset by simp
  have u: "(request name [v])\<lparr>Header := (Header (request name [v]))(name \<mapsto> [t])\<rparr> = request name [t]"
    for name v t by (simp add: request_def)
  show ?thesis
    using parameters_stripped [OF j p, of "request ''Content-Type'' [''application/json; charset=utf-8'']" 0]
      parameters_stripped [OF j p, of "request ''Accept'' [''application/json; charset=utf-8'']" 0]
    by (auto simp: u)
qed

text \<open>
  C8: a non-empty header value that the parser rejects is matched as it is, unmodified; so
  when it is not byte-equal to a supported media type, the decoder and the encoder are the
  JSON ones and the response content type is \<open>application/json\<close>.
\<close>

theorem unparseable_matched_raw:
  assumes "h \<noteq> []" and "ParseMediaType h = Inl e"
  shows "(Header_Get (Header r) ''Content-Type'' = h \<longrightarrow>
            NewHTTPDecoder r =
              (if h = ''application/json'' then json_NewDecoder (Body r)
               else if h = ''application/gob'' then gob_NewDecoder (Body r)
               else if h = ''application/xml'' then xml_NewDecoder (Body r)
               else json_NewDecoder (Body r)) \<and>
            (h \<notin> set supported \<longrightarrow> NewHTTPDecoder r = json_NewDecoder (Body r))) \<and>
         (Header_Get (Header r) ''Accept'' = h \<longrightarrow>
            NewHTTPEncoder w r =
              (if h = ''application/json'' then json_NewEncoder w
               else if h = ''application/gob'' then gob_NewEncoder w
               else if h = ''application/xml'' then xml_NewEncoder w
               else json_NewEncoder w) \<and>
            ResponseContentType r = (if h \<in> set supported then h else ''application/json'') \<and>
            (h \<notin> set supported \<longrightarrow>
               NewHTTPEncoder w r = json_NewEncoder w \<and> ResponseContentType r = ''application/json''))"
  using assms
  by (simp add: NewHTTPDecoder_def NewHTTPEncoder_def ResponseContentType_def Let_def supported_def)

theorem unparseable_matched_raw_witness:
  "NewHTTPDecoder (request ''Content-Type'' [''application/xml; charset'']) = json_NewDecoder ''body'' \<and>
   NewHTTPEncoder 0 (request ''Accept'' [''application/xml; charset'']) = json_NewEncoder 0 \<and>
   ResponseContentType (request ''Accept'' [''application/xml; charset'']) = ''application/json''"
proof -
  have n: "''application/xml; charset'' \<noteq> []" by simp
  show ?thesis
    using unparseable_matched_raw [OF n ParseMediaType_xml_charset_alone,
        of "request ''Content-Type'' [''application/xml; charset'']" 0]
      unparseable_matched_raw [OF n ParseMediaType_xml_charset_alone,
        of "request ''Accept'' [''application/xml; charset'']" 0]
    by (simp add: supported_def)
qed

section \<open>Encoding errors\<close>

lemma content_type_of_encoder:
  "ResponseContentType r = encoder_media_type (NewHTTPEncoder w r)"
  by (simp add: ResponseContentType_def NewHTTPEncoder_def Let_def split: sum.splits)

lemma json_Marshal_not_found:
  \<open>json_Marshal (NewErrorResponse 404 ''not found'') = ''{"status":404,"message":"not found"}''\<close>
  by code_simp

text \<open>
  C5, amended: for the classified error with status 404 and message \<open>not found\<close>, on a
  request whose encoder is the JSON one and a writer on which nothing was sent and whose
  writes succeed, \<open>Encode\<close> sends status 404 with the content type \<open>application/json\<close>
  and writes the body \<open>{"status":404,"message":"not found"}\<close> followed by a newline
  character; it logs nothing.
\<close>

theorem classified_404_json:
  assumes \<open>NewHTTPEncoder w r = json_NewEncoder w\<close>
    and \<open>w_sent (writers s w) = None\<close> and \<open>w_fails (writers s w) = None\<close>
  shows \<open>let s' = errorEncoder_Encode cs (NewErrorHTTPEncoder w r lg) (goa_Error 404 ''not found'') s in
      w_sent (writers s' w) =
        Some (404, (w_header (writers s w))(''Content-Type'' \<mapsto> [''application/json''])) \<and>
      w_header (writers s' w) ''Content-Type'' = Some [''application/json''] \<and>
      w_body (writers s' w) =
        w_body (writers s w) @ ''{"status":404,"message":"not found"}'' @ [CHR 0x0A] \<and>
      log s' = log s\<close>
proof -
  have c: "ResponseContentType r = ''application/json''"
    using content_type_of_encoder [of r w] assms(1) by simp
  show ?thesis
    using assms(2,3)
    by (simp add: NewErrorHTTPEncoder_def assms(1) c Header_Set_def WriteHeader_def Write_def
        HTTPStatus_def Let_def json_Marshal_not_found)
qed


lemma json_request: "NewHTTPEncoder w (request ''Accept'' [''application/json'']) = json_NewEncoder w"
  by (simp add: NewHTTPEncoder_def Let_def ParseMediaType_json)

theorem classified_404_json_witness:
  \<open>(let s' = errorEncoder_Encode no_codecs
        (NewErrorHTTPEncoder 0 (request ''Accept'' [''application/json'']) ())
        (goa_Error 404 ''not found'') state0 in
      w_sent (writers s' 0) = Some (404, [''Content-Type'' \<mapsto> [''application/json'']]) \<and>
      w_header (writers s' 0) ''Content-Type'' = Some [''application/json''] \<and>
      w_body (writers s' 0) = ''{"status":404,"message":"not found"}'' @ [CHR 0x0A] \<and>
      log s' = [])\<close>
  using classified_404_json [of 0 "request ''Accept'' [''application/json'']" state0 no_codecs "()"]
  by (simp add: json_request state0_def fresh_def)

text \<open>
  C5, as stated, fails: the body written is not exactly the JSON object, since the JSON
  encoder ends every value it writes with a newline character.
\<close>

theorem classified_404_json_counterexample:
  \<open>w_body (writers (errorEncoder_Encode no_codecs
        (NewErrorHTTPEncoder 0 (request ''Accept'' [''application/json'']) ())
        (goa_Error 404 ''not found'') state0) 0)
     \<noteq> ''{"status":404,"message":"not found"}''\<close>
proof -
  have c: "ResponseContentType (request ''Accept'' [''application/json'']) = ''application/json''"
    using content_type_of_encoder [of "request ''Accept'' [''application/json'']" 0]
    by (simp add: json_request)
  show ?thesis
    by (simp add: NewErrorHTTPEncoder_def json_request c Header_Set_def WriteHeader_def Write_def
        HTTPStatus_def Let_def json_Marshal_not_found state0_def fresh_def)
qed

lemma ReadFull_rand_length: "length (fst (ReadFull_rand n s)) = n"
  by (simp add: ReadFull_rand_def)

lemma encodeURL_nth: "encodeURL ! (k mod 64) \<in> set encodeURL"
  by (rule nth_mem) (simp add: encodeURL_def)

lemma EncodeToString_six:
  assumes "length b = 6"
  shows "length (EncodeToString b) = 8" and "set (EncodeToString b) \<subseteq> set encodeURL"
proof -
  obtain b0 b1 b2 b3 b4 b5 where b: "b = [b0, b1, b2, b3, b4, b5]"
    using assms by (auto simp: length_Suc_conv eval_nat_numeral)
  show "length (EncodeToString b) = 8" by (simp add: b Let_def)
  show "set (EncodeToString b) \<subseteq> set encodeURL"
    unfolding b by (simp add: Let_def encodeURL_nth)
qed



lemma unclassified_state:
  "errorEncoder_Encode cs (NewErrorHTTPEncoder w r lg) (other_error m) s =
     logger_Error [''id'', EncodeToString (fst (ReadFull_rand 6 s)) @ '': '', ''error'', m]
       (snd (Write w ((EncodeToString (fst (ReadFull_rand 6 s)) @ '': '') @ m)
         (WriteHeader w 500 (Header_Set w ''Content-Type'' ''text/plain'' (snd (ReadFull_rand 6 s))))))"
  by (simp add: NewErrorHTTPEncoder_def Let_def split: prod.splits del: EncodeToString.simps)

lemma ReadFull_rand_fields [simp]:
  "writers (snd (ReadFull_rand n s)) = writers s"
  "log (snd (ReadFull_rand n s)) = log s"
  by (simp_all add: ReadFull_rand_def)

lemma Header_Set_fields [simp]:
  "w_header (writers (Header_Set w k v s) w) = (w_header (writers s w))(k \<mapsto> [v])"
  "w_sent (writers (Header_Set w k v s) w) = w_sent (writers s w)"
  "w_body (writers (Header_Set w k v s) w) = w_body (writers s w)"
  "w_fails (writers (Header_Set w k v s) w) = w_fails (writers s w)"
  "log (Header_Set w k v s) = log s"
  by (simp_all add: Header_Set_def)

lemma WriteHeader_fields [simp]:
  "w_header (writers (WriteHeader w c s) w) = w_header (writers s w)"
  "w_sent (writers (WriteHeader w c s) w) =
     (case w_sent (writers s w) of Some x \<Rightarrow> Some x | None \<Rightarrow> Some (c, w_header (writers s w)))"
  "w_body (writers (WriteHeader w c s) w) = w_body (writers s w)"
  "w_fails (writers (WriteHeader w c s) w) = w_fails (writers s w)"
  "log (WriteHeader w c s) = log s"
  by (simp_all add: WriteHeader_def split: option.splits)

lemma Write_fields [simp]:
  "w_header (writers (snd (Write w b s)) w) = w_header (writers s w)"
  "w_sent (writers (snd (Write w b s)) w) =
     (case w_sent (writers s w) of Some x \<Rightarrow> Some x | None \<Rightarrow> Some (200, w_header (writers s w)))"
  "w_body (writers (snd (Write w b s)) w) =
     (case w_fails (writers s w) of Some e \<Rightarrow> w_body (writers s w) | None \<Rightarrow> w_body (writers s w) @ b)"
  "w_fails (writers (snd (Write w b s)) w) = w_fails (writers s w)"
  "log (snd (Write w b s)) = log s"
  "fst (Write w b s) = w_fails (writers s w)"
  by (simp_all add: Write_def Let_def split: option.splits)

lemma logger_Error_fields [simp]:
  "writers (logger_Error kv s) = writers s"
  "log (logger_Error kv s) = log s @ [kv]"
  by (simp_all add: logger_Error_def)

text \<open>
  C6: for an unclassified error with message \<open>m\<close>, \<open>Encode\<close> sets the content type
  \<open>text/plain\<close>, sends status 500 (on a writer on which nothing was sent), and writes the
  body \<open>id: m\<close> when the write succeeds, where \<open>id\<close> is the URL-safe base64 encoding
  without padding of the six bytes read from the random source, eight characters of the
  URL-safe alphabet; whether the write succeeds or not, it logs the id and the message.
\<close>

theorem unclassified_500_text:
  \<open>let s' = errorEncoder_Encode cs (NewErrorHTTPEncoder w r lg) (other_error m) s;
       id = EncodeToString (fst (ReadFull_rand 6 s)) in
     length id = 8 \<and> set id \<subseteq> set encodeURL \<and>
     w_header (writers s' w) ''Content-Type'' = Some [''text/plain''] \<and>
     (w_sent (writers s w) = None \<longrightarrow>
        w_sent (writers s' w) =
          Some (500, (w_header (writers s w))(''Content-Type'' \<mapsto> [''text/plain'']))) \<and>
     (w_fails (writers s w) = None \<longrightarrow>
        w_body (writers s' w) = w_body (writers s w) @ id @ '': '' @ m) \<and>
     log s' = log s @ [[''id'', id @ '': '', ''error'', m]]\<close>
proof -
  have l: "length (EncodeToString (fst (ReadFull_rand 6 s))) = 8"
    and a: "set (EncodeToString (fst (ReadFull_rand 6 s))) \<subseteq> set encodeURL"
    using EncodeToString_six [OF ReadFull_rand_length [of 6 s]] by simp_all
  show ?thesis
    unfolding Let_def unclassified_state
    using l a by (simp del: EncodeToString.simps)
qed

theorem unclassified_500_text_witness:
  \<open>(let s' = errorEncoder_Encode no_codecs (NewErrorHTTPEncoder 0 (request ''Accept'' []) ())
        (other_error ''boom'') state0 in
     w_header (writers s' 0) ''Content-Type'' = Some [''text/plain''] \<and>
     w_sent (writers s' 0) = Some (500, [''Content-Type'' \<mapsto> [''text/plain'']]) \<and>
     w_body (writers s' 0) = ''Zm9vYmFy: boom'' \<and>
     log s' = [[''id'', ''Zm9vYmFy: '', ''error'', ''boom'']])\<close>
proof -
  have r: "fst (ReadFull_rand 6 state0) = ''foobar''"
    by (simp add: ReadFull_rand_def state0_def)
  have "EncodeToString ''foobar'' = ''Zm9vYmFy''"
    by (simp add: Let_def encodeURL_def byte_def)
  with r have e: "EncodeToString (fst (ReadFull_rand 6 state0)) = ''Zm9vYmFy''"
    by simp
  have f: "w_sent (writers state0 0) = None" "w_fails (writers state0 0) = None"
    "w_body (writers state0 0) = []" "w_header (writers state0 0) = Map.empty" "log state0 = []"
    by (simp_all add: state0_def fresh_def)
  show ?thesis
    using unclassified_500_text [of no_codecs 0 "request ''Accept'' []" "()" "''boom''" state0]
    unfolding Let_def e f by simp
qed



lemma NewHTTPEncoder_cases:
  "NewHTTPEncoder w r = json_NewEncoder w \<or> NewHTTPEncoder w r = gob_NewEncoder w
     \<or> NewHTTPEncoder w r = xml_NewEncoder w"
  by (simp add: NewHTTPEncoder_def Let_def)

lemma Encoder_Encode_fields:
  assumes "enc = json_NewEncoder w \<or> enc = gob_NewEncoder w \<or> enc = xml_NewEncoder w"
  shows "log (snd (Encoder_Encode cs enc v s)) = log s"
    and "w_header (writers (snd (Encoder_Encode cs enc v s)) w) = w_header (writers s w)"
    and "w_sent (writers s w) \<noteq> None \<Longrightarrow>
           w_sent (writers (snd (Encoder_Encode cs enc v s)) w) = w_sent (writers s w)"
  using assms by (auto split: sum.splits)

lemma classified_state:
  "errorEncoder_Encode cs (NewErrorHTTPEncoder w r lg) (goa_Error st msg) s =
     (case fst (Encoder_Encode cs (NewHTTPEncoder w r) (NewErrorResponse st msg)
          (WriteHeader w (HTTPStatus st) (Header_Set w ''Content-Type'' (ResponseContentType r) s))) of
        Some x \<Rightarrow> logger_Error [''encoding'', x]
          (snd (Encoder_Encode cs (NewHTTPEncoder w r) (NewErrorResponse st msg)
            (WriteHeader w (HTTPStatus st) (Header_Set w ''Content-Type'' (ResponseContentType r) s))))
      | None \<Rightarrow> snd (Encoder_Encode cs (NewHTTPEncoder w r) (NewErrorResponse st msg)
            (WriteHeader w (HTTPStatus st) (Header_Set w ''Content-Type'' (ResponseContentType r) s))))"
  by (cases "Encoder_Encode cs (NewHTTPEncoder w r) (NewErrorResponse st msg)
        (WriteHeader w (HTTPStatus st) (Header_Set w ''Content-Type'' (ResponseContentType r) s))")
    (simp add: NewErrorHTTPEncoder_def Let_def split: option.splits)

text \<open>
  C7: when encoding the error response of a classified error fails with an error \<open>x\<close>,
  \<open>Encode\<close> logs \<open>x\<close> under the key \<open>encoding\<close> and returns the state; the status line
  and the headers are those sent before the encoding, and the header map is unchanged.
\<close>

theorem encoding_failure_logged:
  assumes "fst (Encoder_Encode cs (NewHTTPEncoder w r) (NewErrorResponse st msg)
      (WriteHeader w (HTTPStatus st) (Header_Set w ''Content-Type'' (ResponseContentType r) s)))
    = Some x"
  shows "let s2 = WriteHeader w (HTTPStatus st) (Header_Set w ''Content-Type'' (ResponseContentType r) s);
             s' = errorEncoder_Encode cs (NewErrorHTTPEncoder w r lg) (goa_Error st msg) s in
         log s' = log s @ [[''encoding'', x]] \<and>
         w_sent (writers s' w) = w_sent (writers s2 w) \<and>
         w_header (writers s' w) = w_header (writers s2 w) \<and>
         (w_sent (writers s w) = None \<longrightarrow>
            w_sent (writers s' w) =
              Some (HTTPStatus st, (w_header (writers s w))(''Content-Type'' \<mapsto> [ResponseContentType r])))"
proof -
  define s2 where
    "s2 = WriteHeader w (HTTPStatus st) (Header_Set w ''Content-Type'' (ResponseContentType r) s)"
  have sent: "w_sent (writers s2 w) \<noteq> None"
    by (simp add: s2_def split: option.splits)
  have e: "errorEncoder_Encode cs (NewErrorHTTPEncoder w r lg) (goa_Error st msg) s =
      logger_Error [''encoding'', x]
        (snd (Encoder_Encode cs (NewHTTPEncoder w r) (NewErrorResponse st msg) s2))"
    using assms unfolding classified_state s2_def by simp
  have f: "log (snd (Encoder_Encode cs (NewHTTPEncoder w r) (NewErrorResponse st msg) s2)) = log s2"
    "w_header (writers (snd (Encoder_Encode cs (NewHTTPEncoder w r) (NewErrorResponse st msg) s2)) w)
       = w_header (writers s2 w)"
    "w_sent (writers (snd (Encoder_Encode cs (NewHTTPEncoder w r) (NewErrorResponse st msg) s2)) w)
       = w_sent (writers s2 w)"
    using Encoder_Encode_fields [OF NewHTTPEncoder_cases [of w r],
        where cs = cs and v = "NewErrorResponse st msg" and s = s2] sent
    by simp_all
  have "log s2 = log s" by (simp add: s2_def)
  moreover have "w_sent (writers s w) = None \<Longrightarrow> w_sent (writers s2 w) =
      Some (HTTPStatus st, (w_header (writers s w))(''Content-Type'' \<mapsto> [ResponseContentType r]))"
    by (simp add: s2_def)
  ultimately show ?thesis
    unfolding Let_def e s2_def [symmetric] by (simp add: f)
qed

theorem encoding_failure_logged_witness:
  "(let s' = errorEncoder_Encode no_codecs (NewErrorHTTPEncoder 0 (request ''Accept'' [''application/json'']) ())
        (goa_Error 404 ''not found'') broken in
     log s' = [[''encoding'', ''broken pipe'']] \<and>
     w_sent (writers s' 0) = Some (404, [''Content-Type'' \<mapsto> [''application/json'']]) \<and>
     w_body (writers s' 0) = []) \<and>
   (let s' = errorEncoder_Encode no_codecs (NewErrorHTTPEncoder 0 (request ''Accept'' [''application/gob'']) ())
        (goa_Error 404 ''not found'') state0 in
     log s' = [[''encoding'', ''gob'']] \<and>
     w_sent (writers s' 0) = Some (404, [''Content-Type'' \<mapsto> [''application/gob'']]) \<and>
     w_body (writers s' 0) = [])"
proof -
  have g: "NewHTTPEncoder w (request ''Accept'' [''application/gob'']) = gob_NewEncoder w" for w
    by (simp add: NewHTTPEncoder_def Let_def ParseMediaType_gob)
  have cj: "ResponseContentType (request ''Accept'' [''application/json'']) = ''application/json''"
    using content_type_of_encoder [of "request ''Accept'' [''application/json'']" 0]
    by (simp add: json_request)
  have cg: "ResponseContentType (request ''Accept'' [''application/gob'']) = ''application/gob''"
    using content_type_of_encoder [of "request ''Accept'' [''application/gob'']" 0]
    by (simp add: g)
  have b: "w_sent (writers broken 0) = None" "w_fails (writers broken 0) = Some ''broken pipe''"
    "w_body (writers broken 0) = []" "w_header (writers broken 0) = Map.empty" "log broken = []"
    by (simp_all add: broken_def state0_def fresh_def)
  have z: "w_sent (writers state0 0) = None" "w_fails (writers state0 0) = None"
    "w_body (writers state0 0) = []" "w_header (writers state0 0) = Map.empty" "log state0 = []"
    by (simp_all add: state0_def fresh_def)
  have fj: "fst (Encoder_Encode no_codecs (NewHTTPEncoder 0 (request ''Accept'' [''application/json'']))
      (NewErrorResponse 404 ''not found'')
      (WriteHeader 0 (HTTPStatus 404) (Header_Set 0 ''Content-Type''
        (ResponseContentType (request ''Accept'' [''application/json''])) broken))) = Some ''broken pipe''"
    by (simp add: json_request b)
  have fg: "fst (Encoder_Encode no_codecs (NewHTTPEncoder 0 (request ''Accept'' [''application/gob'']))
      (NewErrorResponse 404 ''not found'')
      (WriteHeader 0 (HTTPStatus 404) (Header_Set 0 ''Content-Type''
        (ResponseContentType (request ''Accept'' [''application/gob''])) state0))) = Some ''gob''"
    by (simp add: g no_codecs_def)
  have bj: "w_body (writers (errorEncoder_Encode no_codecs
      (NewErrorHTTPEncoder 0 (request ''Accept'' [''application/json'']) ())
      (goa_Error 404 ''not found'') broken) 0) = []"
    unfolding classified_state by (simp add: json_request b)
  have bg: "w_body (writers (errorEncoder_Encode no_codecs
      (NewErrorHTTPEncoder 0 (request ''Accept'' [''application/gob'']) ())
      (goa_Error 404 ''not found'') state0) 0) = []"
    unfolding classified_state by (simp add: g no_codecs_def z)
  note t = encoding_failure_logged [OF fj, of "()", unfolded Let_def]
    encoding_failure_logged [OF fg, of "()", unfolded Let_def]
  show ?thesis
    unfolding Let_def using t
    by (simp add: b z cj cg bj bg HTTPStatus_def del: errorEncoder_Encode.simps)
qed

end
